theory Spec2Isabelle
  imports Main "HOL-Library.Word"
begin

section \<open>The gocql connection pool and executor of the service layer\<close>

text \<open>
  The development embeds the Cassandra connection pool (\<^verbatim>\<open>gocqlConnectionPool\<close>) and the
  two executors (\<^verbatim>\<open>gocqlExecutor\<close>, one holding a session and one holding a pool) as
  state-passing functions. Everything the Go code obtains from outside is an argument:
  the host picked by the host pool, whether a dial succeeds, the configuration the
  configuration service returns, whether a session can be created. A goroutine is
  modelled on its own: a channel operation that is not ready when it is reached, with
  nobody else running, never becomes ready. The trace and warning lines the pool logs
  are left out; what the executors log is kept, as events.
\<close>

subsection \<open>Values\<close>

type_synonym host = string
type_synonym error = string

text \<open>A \<^verbatim>\<open>*gocql.Conn\<close> is \<open>None\<close> (nil) or the serial number of the dial that made it.\<close>

type_synonym conn = nat

text \<open>
  \<^verbatim>\<open>ksConfig\<close>, with the fields the pool and its test suite use (the declaration of
  the type is not among the sources at hand). \<open>NumConns\<close> is \<^verbatim>\<open>cc.NumConns\<close>, a Go
  \<^verbatim>\<open>int\<close>.
\<close>

record ksConfig =
  ks :: string
  hosts :: "host list"
  cl :: nat
  timeout :: nat
  NumConns :: int

text \<open>
  The outcome of a call: it returns (with the state it leaves and a value), it blocks
  forever (leaving the state reached at that point), or it panics.
\<close>

datatype ('s, 'a) outcome = Returns 's 'a | Blocks 's | Panics

fun state_of :: "('s, 'a) outcome \<Rightarrow> 's option" where
  "state_of (Returns s v) = Some s"
| "state_of (Blocks s) = Some s"
| "state_of Panics = None"

subsection \<open>Channels\<close>

text \<open>
  A channel is its capacity and its queue. A nil channel (the value
  a Go map gives for a missing key) is \<open>None\<close>: it is never ready, for receiving or for
  sending. An unbuffered channel has capacity 0: with no receiver waiting, a send is
  not ready.
\<close>

record 'a chan =
  cap :: nat
  buf :: "'a list"

definition make_chan :: "nat \<Rightarrow> 'a chan" where
  "make_chan n = \<lparr>cap = n, buf = []\<rparr>"

text \<open>\<open>recv c\<close> is the value received and the channel left, or \<open>None\<close> when not ready.\<close>

definition recv :: "'a chan option \<Rightarrow> ('a \<times> 'a chan) option" where
  "recv c =
     (case c of
        None \<Rightarrow> None
      | Some ch \<Rightarrow> (case buf ch of [] \<Rightarrow> None | x # xs \<Rightarrow> Some (x, ch\<lparr>buf := xs\<rparr>)))"

text \<open>\<open>send c v\<close> is the channel left, or \<open>None\<close> when not ready.\<close>

definition send :: "'a chan option \<Rightarrow> 'a \<Rightarrow> 'a chan option" where
  "send c v =
     (case c of
        None \<Rightarrow> None
      | Some ch \<Rightarrow> if length (buf ch) < cap ch then Some (ch\<lparr>buf := buf ch @ [v]\<rparr>) else None)"

subsection \<open>The driver\<close>

text \<open>
  What the pool sees of gocql: how many connections have been made (the next one gets
  this number), how many times \<^verbatim>\<open>gocql.Connect\<close> was called, and which connections
  report \<^verbatim>\<open>Closed()\<close>.
\<close>

record driver =
  dialed :: nat
  attempts :: nat
  closedConns :: "conn set"

definition Closed :: "driver \<Rightarrow> conn \<Rightarrow> bool" where
  "Closed d c = (c \<in> closedConns d)"

definition conn_Close :: "conn \<Rightarrow> driver \<Rightarrow> driver" where
  "conn_Close c d = d\<lparr>closedConns := insert c (closedConns d)\<rparr>"

subsection \<open>The pool\<close>

text \<open>
  \<^verbatim>\<open>gocqlConnCheckout\<close>: \<open>hpResp\<close> is the host pool's response, of which the code uses
  the host (\<^verbatim>\<open>Host()\<close>) and \<^verbatim>\<open>Mark\<close>.
\<close>

record gocqlConnCheckout =
  conn :: "conn option"
  hpResp :: host

text \<open>\<open>hp\<close> is the host pool, as the list of the marks it has received.\<close>

record gocqlConnectionPool =
  Cfg :: ksConfig
  hp :: "(host \<times> error option) list"
  activeConns :: "conn list"
  hostConnsEstablished :: "host \<rightharpoonup> conn option chan"
  hostConnsUnestablished :: "host \<rightharpoonup> conn option chan"

text \<open>A pool as \<^verbatim>\<open>&gocqlConnectionPool{Cfg: cfg}\<close> makes it.\<close>

definition new_pool :: "ksConfig \<Rightarrow> gocqlConnectionPool" where
  "new_pool c =
     \<lparr>Cfg = c, hp = [], activeConns = [],
      hostConnsEstablished = Map.empty, hostConnsUnestablished = Map.empty\<rparr>"

text \<open>
  \<^verbatim>\<open>init\<close>. \<^verbatim>\<open>make\<close> panics on a negative size: the slice of \<^verbatim>\<open>len(hosts)*NumConns\<close>
  when there is a host, the channels inside the loop. The loop over the hosts is the
  \<open>fold\<close>; a host listed twice gets the channels of its last occurrence.
\<close>

definition fill_unestablished :: "nat \<Rightarrow> conn option chan" where
  "fill_unestablished n = \<lparr>cap = n, buf = replicate n None\<rparr>"

definition gocqlConnectionPool_init :: "gocqlConnectionPool \<Rightarrow> gocqlConnectionPool option" where
  "gocqlConnectionPool_init p =
     (if hosts (Cfg p) \<noteq> [] \<and> NumConns (Cfg p) < 0 then None
      else
        let n = nat (NumConns (Cfg p)) in
        Some (p\<lparr>hp := [], activeConns := [],
                hostConnsEstablished :=
                  fold (\<lambda>h m. m(h \<mapsto> make_chan n)) (hosts (Cfg p)) Map.empty,
                hostConnsUnestablished :=
                  fold (\<lambda>h m. m(h \<mapsto> fill_unestablished n)) (hosts (Cfg p)) Map.empty\<rparr>))"

text \<open>
  \<^verbatim>\<open>connect\<close>: one call of \<^verbatim>\<open>gocql.Connect\<close>, which succeeds or not (\<open>ok\<close>). A new
  connection is appended to \<open>activeConns\<close>.
\<close>

definition connect ::
  "gocqlConnectionPool \<Rightarrow> driver \<Rightarrow> host \<Rightarrow> bool
     \<Rightarrow> (gocqlConnectionPool \<times> driver) \<times> conn option" where
  "connect p d h ok =
     (if \<not> ok then ((p, d\<lparr>attempts := Suc (attempts d)\<rparr>), None)
      else
        let c = dialed d in
        ((p\<lparr>activeConns := activeConns p @ [c]\<rparr>,
          d\<lparr>dialed := Suc (dialed d), attempts := Suc (attempts d)\<rparr>), Some c))"

text \<open>
  The two nested selects of \<^verbatim>\<open>checkout\<close>: the established channel first; failing
  that, whichever of the two channels is ready (the established one was just found
  empty); failing that, the timer fires and the result is \<open>None\<close>.
\<close>

definition dequeue ::
  "gocqlConnectionPool \<Rightarrow> host \<Rightarrow> (conn option \<times> gocqlConnectionPool) option" where
  "dequeue p h =
     (case recv (hostConnsEstablished p h) of
        Some (c, ch) \<Rightarrow> Some (c, p\<lparr>hostConnsEstablished := (hostConnsEstablished p)(h \<mapsto> ch)\<rparr>)
      | None \<Rightarrow>
          (case recv (hostConnsUnestablished p h) of
             Some (c, ch) \<Rightarrow>
               Some (c, p\<lparr>hostConnsUnestablished := (hostConnsUnestablished p)(h \<mapsto> ch)\<rparr>)
           | None \<Rightarrow> None))"

text \<open>
  \<^verbatim>\<open>checkout\<close>, with the host the host pool picked (\<open>h\<close>) and whether the dial, if
  one is made, succeeds (\<open>ok\<close>).
\<close>

definition checkout ::
  "gocqlConnectionPool \<Rightarrow> driver \<Rightarrow> host \<Rightarrow> bool
     \<Rightarrow> (gocqlConnectionPool \<times> driver, gocqlConnCheckout) outcome" where
  "checkout p d h ok =
     (case dequeue p h of
        None \<Rightarrow> Returns (p, d) \<lparr>conn = None, hpResp = h\<rparr>
      | Some (c, p1) \<Rightarrow>
          if (case c of None \<Rightarrow> True | Some k \<Rightarrow> Closed d k) then
            (case connect p1 d h ok of
               ((p2, d2), Some c') \<Rightarrow> Returns (p2, d2) \<lparr>conn = Some c', hpResp = h\<rparr>
             | ((p2, d2), None) \<Rightarrow>
                 (case send (hostConnsUnestablished p2 h) None of
                    None \<Rightarrow> Blocks (p2, d2)
                  | Some ch \<Rightarrow>
                      Returns
                        (p2\<lparr>hostConnsUnestablished := (hostConnsUnestablished p2)(h \<mapsto> ch)\<rparr>, d2)
                        \<lparr>conn = None, hpResp = h\<rparr>))
          else Returns (p1, d) \<lparr>conn = c, hpResp = h\<rparr>)"

text \<open>\<^verbatim>\<open>checkin\<close>: the mark first, then the send when there is a connection.\<close>

definition Mark :: "gocqlConnCheckout \<Rightarrow> error option \<Rightarrow> gocqlConnectionPool \<Rightarrow> gocqlConnectionPool" where
  "Mark c err p = p\<lparr>hp := hp p @ [(hpResp c, err)]\<rparr>"

definition checkin ::
  "gocqlConnectionPool \<Rightarrow> gocqlConnCheckout \<Rightarrow> error option
     \<Rightarrow> (gocqlConnectionPool, unit) outcome" where
  "checkin p c err =
     (let p1 = Mark c err p in
      if conn c \<noteq> None then
        (case send (hostConnsEstablished p1 (hpResp c)) (conn c) of
           None \<Rightarrow> Blocks p1
         | Some ch \<Rightarrow>
             Returns (p1\<lparr>hostConnsEstablished := (hostConnsEstablished p1)(hpResp c \<mapsto> ch)\<rparr>) ())
      else Returns p1 ())"

definition Size :: "gocqlConnectionPool \<Rightarrow> nat" where
  "Size p = length (activeConns p)"

text \<open>\<^verbatim>\<open>Close\<close> closes every tracked connection and resets the list; the channels stay.\<close>

definition Close :: "gocqlConnectionPool \<Rightarrow> driver \<Rightarrow> gocqlConnectionPool \<times> driver" where
  "Close p d = (p\<lparr>activeConns := []\<rparr>, fold conn_Close (activeConns p) d)"

subsection \<open>Runs of a pool\<close>

text \<open>
  The callers of one pool: each checkout adds the handle it returns to the handles
  held, each checkin hands one of them back, and the driver may close any connection
  at any time. An operation that does not return has no next state.
\<close>

record pool_state =
  the_pool :: gocqlConnectionPool
  the_driver :: driver
  held :: "gocqlConnCheckout list"

datatype pool_op = Checkout host bool | Checkin nat "error option" | Closes conn

fun step :: "pool_op \<Rightarrow> pool_state \<Rightarrow> pool_state option" where
  "step (Checkout h ok) s =
     (case checkout (the_pool s) (the_driver s) h ok of
        Returns (p, d) c \<Rightarrow> Some \<lparr>the_pool = p, the_driver = d, held = held s @ [c]\<rparr>
      | Blocks x \<Rightarrow> None
      | Panics \<Rightarrow> None)"
| "step (Checkin i err) s =
     (if i < length (held s) then
        (case checkin (the_pool s) (held s ! i) err of
           Returns p u \<Rightarrow> Some (s\<lparr>the_pool := p, held := take i (held s) @ drop (Suc i) (held s)\<rparr>)
         | Blocks x \<Rightarrow> None
         | Panics \<Rightarrow> None)
      else None)"
| "step (Closes c) s = Some (s\<lparr>the_driver := conn_Close c (the_driver s)\<rparr>)"

fun run :: "pool_op list \<Rightarrow> pool_state \<Rightarrow> pool_state option" where
  "run [] s = Some s"
| "run (x # xs) s = (case step x s of None \<Rightarrow> None | Some s' \<Rightarrow> run xs s')"

text \<open>The three counts of a host: both queues, and the handles held with a connection.\<close>

definition established_count :: "gocqlConnectionPool \<Rightarrow> host \<Rightarrow> nat" where
  "established_count p h =
     (case hostConnsEstablished p h of None \<Rightarrow> 0 | Some ch \<Rightarrow> length (buf ch))"

definition unestablished_count :: "gocqlConnectionPool \<Rightarrow> host \<Rightarrow> nat" where
  "unestablished_count p h =
     (case hostConnsUnestablished p h of None \<Rightarrow> 0 | Some ch \<Rightarrow> length (buf ch))"

definition in_flight_count :: "gocqlConnCheckout list \<Rightarrow> host \<Rightarrow> nat" where
  "in_flight_count cs h = length (filter (\<lambda>c. hpResp c = h \<and> conn c \<noteq> None) cs)"

definition slots :: "pool_state \<Rightarrow> host \<Rightarrow> nat" where
  "slots s h =
     established_count (the_pool s) h + unestablished_count (the_pool s) h
       + in_flight_count (held s) h"

definition fresh_driver :: driver where
  "fresh_driver = \<lparr>dialed = 0, attempts = 0, closedConns = {}\<rparr>"

text \<open>
  The invariant of a host in a run, for a pool of the hosts \<open>hs\<close> with \<open>n\<close> connections
  per host: a configured host has both channels, of capacity \<open>n\<close>, and its three counts
  add up to \<open>n\<close>; any other host has no channel and no handle with a connection.
\<close>

definition host_inv :: "host list \<Rightarrow> nat \<Rightarrow> pool_state \<Rightarrow> host \<Rightarrow> bool" where
  "host_inv hs n s h =
     (case (hostConnsEstablished (the_pool s) h, hostConnsUnestablished (the_pool s) h) of
        (Some ce, Some cu) \<Rightarrow>
          h \<in> set hs \<and> cap ce = n \<and> cap cu = n \<and> length (buf ce) + length (buf cu) + in_flight_count (held s) h = n
      | (None, None) \<Rightarrow> h \<notin> set hs \<and> in_flight_count (held s) h = 0
      | _ \<Rightarrow> False)"

subsection \<open>The world of an executor\<close>

text \<open>
  What an executor reaches through pointers or calls: the driver, the pool objects by
  address, the sessions made and those closed, the number of goroutines started on
  \<^verbatim>\<open>watchConfig\<close>, and what was logged or slept, in order.
\<close>

datatype event = LogError string | LogInfo string | LogDebug string | Sleep nat

record world =
  drv :: driver
  pools :: "nat \<rightharpoonup> gocqlConnectionPool"
  nextPool :: nat
  nextSession :: nat
  closedSessions :: "nat set"
  watchers :: nat
  events :: "event list"

definition emit :: "event \<Rightarrow> world \<Rightarrow> world" where
  "emit ev w = w\<lparr>events := events w @ [ev]\<rparr>"

text \<open>
  The fields the two executors share; \<open>lastHash\<close> is a \<^verbatim>\<open>uint32\<close>. The hash of a
  configuration (\<^verbatim>\<open>ksConfig.hash\<close>) and the loading of one (\<^verbatim>\<open>getKsConfig\<close>) are
  arguments of the functions below.
\<close>

record executor_fields =
  ks :: string
  initialised :: bool
  lastHash :: "32 word"

subsection \<open>The executor that holds a pool\<close>

record gocqlExecutor = executor_fields +
  pool :: "nat option"


text \<open>
  \<^verbatim>\<open>switchConfig\<close>: close the old pool if there is one, make and publish the new one
  at a new address. A pointer to no object does not occur in Go; the model panics
  there, as it does when \<^verbatim>\<open>init\<close> of the pool panics.
\<close>

definition switchConfig ::
  "(ksConfig \<Rightarrow> 32 word) \<Rightarrow> gocqlExecutor \<Rightarrow> world \<Rightarrow> ksConfig
     \<Rightarrow> (gocqlExecutor \<times> world, unit) outcome" where
  "switchConfig hash e w newConfig =
     (case (case pool e of
              None \<Rightarrow> Some w
            | Some a \<Rightarrow>
                (case pools w a of
                   None \<Rightarrow> None
                 | Some p \<Rightarrow>
                     (case Close p (drv w) of
                        (p', d') \<Rightarrow> Some (w\<lparr>drv := d', pools := (pools w)(a \<mapsto> p')\<rparr>)))) of
        None \<Rightarrow> Panics
      | Some w1 \<Rightarrow>
          (case gocqlConnectionPool_init (new_pool newConfig) of
             None \<Rightarrow> Panics
           | Some p \<Rightarrow>
               Returns
                 (e\<lparr>pool := Some (nextPool w1), lastHash := hash newConfig\<rparr>,
                  emit (LogInfo ''Switched config to'')
                    (w1\<lparr>pools := (pools w1)(nextPool w1 \<mapsto> p), nextPool := Suc (nextPool w1)\<rparr>))
                 ()))"

text \<open>
  \<^verbatim>\<open>init\<close>, with both tests of \<open>initialised\<close>; \<^verbatim>\<open>go e.watchConfig()\<close> adds a
  watcher.
\<close>

definition gocqlExecutor_init ::
  "(ksConfig \<Rightarrow> 32 word) \<Rightarrow> (string \<Rightarrow> error + ksConfig) \<Rightarrow> gocqlExecutor \<Rightarrow> world
     \<Rightarrow> (gocqlExecutor \<times> world, error option) outcome" where
  "gocqlExecutor_init hash getKsConfig e w =
     (if initialised e then Returns (e, w) None
      else if \<not> initialised e then
        (case getKsConfig (ks e) of
           Inl err \<Rightarrow> Returns (e, w) (Some err)
         | Inr cfg \<Rightarrow>
             (case switchConfig hash e w cfg of
                Returns (e1, w1) u \<Rightarrow>
                  Returns (e1\<lparr>initialised := True\<rparr>, w1\<lparr>watchers := Suc (watchers w1)\<rparr>) None
              | Blocks x \<Rightarrow> Blocks x
              | Panics \<Rightarrow> Panics))
      else Returns (e, w) None)"

text \<open>One turn of the loop of \<^verbatim>\<open>watchConfig\<close>: what it does on one notification.\<close>

definition watchConfig_body ::
  "(ksConfig \<Rightarrow> 32 word) \<Rightarrow> (string \<Rightarrow> error + ksConfig) \<Rightarrow> gocqlExecutor \<Rightarrow> world
     \<Rightarrow> (gocqlExecutor \<times> world, unit) outcome" where
  "watchConfig_body hash getKsConfig e w =
     (let ks' = ks e; lastHash' = lastHash e in
      case getKsConfig ks' of
        Inl err \<Rightarrow> Returns (e, emit (LogError ''Error getting new config'') w) ()
      | Inr cfg \<Rightarrow>
          if hash cfg \<noteq> lastHash' then
            switchConfig hash e
              (emit (LogInfo ''Config changed; invalidating connection pool'') w) cfg
          else
            Returns
              (e, emit (LogDebug ''Config changed but not invalidating connection pool'') w) ())"

text \<open>
  \<^verbatim>\<open>watchConfig\<close> on the notifications received so far, each with what the
  configuration service answers at that time. \<open>Returns\<close> is the state in which the
  loop waits for the next notification.
\<close>

fun watchConfig ::
  "(ksConfig \<Rightarrow> 32 word) \<Rightarrow> gocqlExecutor \<Rightarrow> world \<Rightarrow> (string \<Rightarrow> error + ksConfig) list
     \<Rightarrow> (gocqlExecutor \<times> world, unit) outcome" where
  "watchConfig hash e w [] = Returns (e, w) ()"
| "watchConfig hash e w (g # gs) =
     (case watchConfig_body hash g e w of
        Returns (e1, w1) u \<Rightarrow> watchConfig hash e1 w1 gs
      | Blocks x \<Rightarrow> Blocks x
      | Panics \<Rightarrow> Panics)"

text \<open>
  What a query meets outside the executor: the host picked, whether a dial succeeds,
  the error of \<^verbatim>\<open>gocql.NewSession\<close>, the rows scanned and the error of \<^verbatim>\<open>iter.Close\<close>
  (for \<^verbatim>\<open>Execute\<close>, of \<^verbatim>\<open>Exec\<close>).
\<close>

type_synonym row = "(string \<times> string) list"

record query_env =
  pick :: host
  dialOk :: bool
  sessionErr :: "error option"
  rows :: "row list"
  stmtErr :: "error option"

definition put_pool :: "world \<Rightarrow> nat \<Rightarrow> gocqlConnectionPool \<Rightarrow> driver \<Rightarrow> world" where
  "put_pool w a p d = w\<lparr>drv := d, pools := (pools w)(a \<mapsto> p)\<rparr>"


text \<open>\<^verbatim>\<open>Execute\<close>: the same path, with the error alone as result.\<close>

definition Execute ::
  "(ksConfig \<Rightarrow> 32 word) \<Rightarrow> (string \<Rightarrow> error + ksConfig) \<Rightarrow> gocqlExecutor \<Rightarrow> world
     \<Rightarrow> query_env \<Rightarrow> (gocqlExecutor \<times> world, error option) outcome" where
  "Execute hash getKsConfig e w env =
     (case gocqlExecutor_init hash getKsConfig e w of
        Panics \<Rightarrow> Panics
      | Blocks x \<Rightarrow> Blocks x
      | Returns (e1, w1) (Some err) \<Rightarrow> Returns (e1, w1) (Some err)
      | Returns (e1, w1) None \<Rightarrow>
          (case pool e1 of
             None \<Rightarrow> Panics
           | Some a \<Rightarrow>
               (case pools w1 a of
                  None \<Rightarrow> Panics
                | Some p \<Rightarrow>
                    (case checkout p (drv w1) (pick env) (dialOk env) of
                       Panics \<Rightarrow> Panics
                     | Blocks (p1, d1) \<Rightarrow> Blocks (e1, put_pool w1 a p1 d1)
                     | Returns (p1, d1) c \<Rightarrow>
                         (case sessionErr env of
                            Some err \<Rightarrow>
                              (case checkin p1 c (Some err) of
                                 Panics \<Rightarrow> Panics
                               | Blocks p2 \<Rightarrow> Blocks (e1, put_pool w1 a p2 d1)
                               | Returns p2 u \<Rightarrow> Returns (e1, put_pool w1 a p2 d1) (Some err))
                          | None \<Rightarrow>
                              (case checkin p1 c (stmtErr env) of
                                 Panics \<Rightarrow> Panics
                               | Blocks p2 \<Rightarrow> Blocks (e1, put_pool w1 a p2 d1)
                               | Returns p2 u \<Rightarrow>
                                   Returns (e1, put_pool w1 a p2 d1) (stmtErr env)))))))"

text \<open>\<^verbatim>\<open>ExecuteAtomically\<close>, the same in both executors: it reads nothing and returns the error.\<close>

definition ExecuteAtomically ::
  "'e \<Rightarrow> world \<Rightarrow> string list \<Rightarrow> string list list \<Rightarrow> ('e \<times> world, error option) outcome" where
  "ExecuteAtomically e w stmt params =
     Returns (e, w) (Some ''Execute atomically is not implemented yet'')"

subsection \<open>The executor that holds a session\<close>

text \<open>
  A \<^verbatim>\<open>*gocql.Session\<close> is \<open>None\<close> or the serial number of the session.
  \<^verbatim>\<open>CreateSession\<close> is an argument: the error it returns for a configuration, or
  \<open>None\<close> when it makes a session.
\<close>

record gocqlExecutor_s = executor_fields +
  cfg :: ksConfig
  session :: "nat option"

definition session_Close :: "nat \<Rightarrow> world \<Rightarrow> world" where
  "session_Close s w = w\<lparr>closedSessions := insert s (closedSessions w)\<rparr>"

definition switchConfig_s ::
  "(ksConfig \<Rightarrow> 32 word) \<Rightarrow> (ksConfig \<Rightarrow> error option) \<Rightarrow> gocqlExecutor_s \<Rightarrow> world
     \<Rightarrow> ksConfig \<Rightarrow> (gocqlExecutor_s \<times> world) \<times> error option" where
  "switchConfig_s hash CreateSession e w newConfig =
     (let w1 = (case session e of None \<Rightarrow> w | Some s \<Rightarrow> session_Close s w);
          e1 = e\<lparr>cfg := newConfig\<rparr>
      in case CreateSession (cfg e1) of
           Some err \<Rightarrow> ((e1, w1), Some err)
         | None \<Rightarrow>
             ((e1\<lparr>session := Some (nextSession w1), lastHash := hash newConfig\<rparr>,
               w1\<lparr>nextSession := Suc (nextSession w1)\<rparr>), None))"

text \<open>
  \<^verbatim>\<open>reloadSession\<close>. The value returned is the retry channel as the call leaves it.
  After a failed switch the function sends on the retry channel.
\<close>

definition reloadSession ::
  "(ksConfig \<Rightarrow> 32 word) \<Rightarrow> (string \<Rightarrow> error + ksConfig) \<Rightarrow> (ksConfig \<Rightarrow> error option)
     \<Rightarrow> gocqlExecutor_s \<Rightarrow> world \<Rightarrow> unit chan
     \<Rightarrow> (gocqlExecutor_s \<times> world, unit chan) outcome" where
  "reloadSession hash getKsConfig CreateSession e w retryCh =
     (let ks' = ks e; lastHash' = lastHash e in
      case getKsConfig ks' of
        Inl err \<Rightarrow> Returns (e, emit (LogError ''Error getting new config'') w) retryCh
      | Inr c \<Rightarrow>
          if hash c \<noteq> lastHash' then
            (case switchConfig_s hash CreateSession e
                    (emit (LogInfo ''Config changed; invalidating connection pool'') w) c of
               ((e1, w1), Some err) \<Rightarrow>
                 (let w2 = emit (Sleep 1)
                             (emit (LogError ''Error creating session, retrying after 1s delay'') w1)
                  in case send (Some retryCh) () of
                       None \<Rightarrow> Blocks (e1, w2)
                     | Some ch \<Rightarrow> Returns (e1, emit (LogInfo ''Switched config to'') w2) ch)
             | ((e1, w1), None) \<Rightarrow>
                 Returns (e1, emit (LogInfo ''Switched config to'') w1) retryCh)
          else
            Returns
              (e, emit (LogDebug ''Config changed but not invalidating connection pool'') w)
              retryCh)"

text \<open>
  \<^verbatim>\<open>watchConfig\<close> of this executor, on the configuration notifications received so
  far. The retry channel is made unbuffered and is known to this loop and to the
  \<^verbatim>\<open>reloadSession\<close> it calls only. The second case of the select, a receive on the
  retry channel, is ready only while a sender waits on it; the one sender is
  \<^verbatim>\<open>reloadSession\<close>, run by this same goroutine, so at the select the case is never
  ready and each turn of the loop is a configuration notification.
\<close>

fun watchConfig_loop ::
  "(ksConfig \<Rightarrow> 32 word) \<Rightarrow> gocqlExecutor_s \<Rightarrow> world \<Rightarrow> unit chan
     \<Rightarrow> ((string \<Rightarrow> error + ksConfig) \<times> (ksConfig \<Rightarrow> error option)) list
     \<Rightarrow> (gocqlExecutor_s \<times> world, unit) outcome" where
  "watchConfig_loop hash e w retryCh [] = Returns (e, w) ()"
| "watchConfig_loop hash e w retryCh ((g, cs) # ns) =
     (case reloadSession hash g cs e w retryCh of
        Returns (e1, w1) ch1 \<Rightarrow> watchConfig_loop hash e1 w1 ch1 ns
      | Blocks x \<Rightarrow> Blocks x
      | Panics \<Rightarrow> Panics)"

definition watchConfig_s ::
  "(ksConfig \<Rightarrow> 32 word) \<Rightarrow> gocqlExecutor_s \<Rightarrow> world
     \<Rightarrow> ((string \<Rightarrow> error + ksConfig) \<times> (ksConfig \<Rightarrow> error option)) list
     \<Rightarrow> (gocqlExecutor_s \<times> world, unit) outcome" where
  "watchConfig_s hash e w ns = watchConfig_loop hash e w (make_chan 0) ns"

subsection \<open>Sample values\<close>

text \<open>
  The configuration of the pool's test suite (one host, two connections per host), the
  pool \<^verbatim>\<open>init\<close> makes of it, and a run of five operations with the state it ends in.
\<close>

definition test_cfg :: ksConfig where
  "test_cfg = \<lparr>ksConfig.ks = ''dummyks'', hosts = [''host1''], cl = 1, timeout = 1, NumConns = 2\<rparr>"

definition sample_ops :: "pool_op list" where
  "sample_ops =
     [Checkout ''host1'' True, Checkout ''host1'' False, Checkin 0 None, Closes 0,
      Checkout ''host1'' True]"

definition sample_pool :: gocqlConnectionPool where
  "sample_pool =
     \<lparr>Cfg = test_cfg, hp = [], activeConns = [],
      hostConnsEstablished = [''host1'' \<mapsto> \<lparr>cap = 2, buf = []\<rparr>],
      hostConnsUnestablished = [''host1'' \<mapsto> \<lparr>cap = 2, buf = [None, None]\<rparr>]\<rparr>"

definition sample_end :: pool_state where
  "sample_end =
     \<lparr>the_pool =
        \<lparr>Cfg = test_cfg, hp = [(''host1'', None)], activeConns = [0, 1],
         hostConnsEstablished = [''host1'' \<mapsto> \<lparr>cap = 2, buf = []\<rparr>],
         hostConnsUnestablished = [''host1'' \<mapsto> \<lparr>cap = 2, buf = [None]\<rparr>]\<rparr>,
      the_driver = \<lparr>dialed = 2, attempts = 3, closedConns = {0}\<rparr>,
      held = [\<lparr>conn = None, hpResp = ''host1''\<rparr>, \<lparr>conn = Some 1, hpResp = ''host1''\<rparr>]\<rparr>"

text \<open>The same pool after two checkouts that both dialed, and the driver then.\<close>

definition exhausted_pool :: gocqlConnectionPool where
  "exhausted_pool =
     \<lparr>Cfg = test_cfg, hp = [], activeConns = [0, 1],
      hostConnsEstablished = [''host1'' \<mapsto> \<lparr>cap = 2, buf = []\<rparr>],
      hostConnsUnestablished = [''host1'' \<mapsto> \<lparr>cap = 2, buf = []\<rparr>]\<rparr>"

definition exhausted_driver :: driver where
  "exhausted_driver = \<lparr>dialed = 2, attempts = 2, closedConns = {}\<rparr>"

text \<open>
  For the executors: a stand-in for \<^verbatim>\<open>ksConfig.hash\<close>, a configuration with a second
  host, a world holding the sample pool at address 0 and one session, an executor of
  each kind running on it, the world before anything was made, and a query that meets
  no error.
\<close>

definition sample_hash :: "ksConfig \<Rightarrow> 32 word" where
  "sample_hash c = of_nat (length (hosts c))"

definition changed_cfg :: ksConfig where
  "changed_cfg = test_cfg\<lparr>hosts := [''host1'', ''host2'']\<rparr>"

definition sample_world :: world where
  "sample_world =
     \<lparr>drv = fresh_driver, pools = [0 \<mapsto> sample_pool], nextPool = 1, nextSession = 1,
      closedSessions = {}, watchers = 1, events = []\<rparr>"

definition sample_executor :: gocqlExecutor where
  "sample_executor = \<lparr>ks = ''dummyks'', initialised = True, lastHash = 1, pool = Some 0\<rparr>"

definition sample_executor_s :: gocqlExecutor_s where
  "sample_executor_s =
     \<lparr>ks = ''dummyks'', initialised = True, lastHash = 1, cfg = test_cfg, session = Some 0\<rparr>"



section \<open>Properties of the pool\<close>

subsection \<open>Evaluation\<close>

lemmas init_defs =
  gocqlConnectionPool_init_def new_pool_def make_chan_def fill_unestablished_def

lemmas pool_defs =
  checkout_def dequeue_def recv_def send_def connect_def checkin_def Mark_def
  Closed_def conn_Close_def fresh_driver_def Let_def

lemma sample_init: "gocqlConnectionPool_init (new_pool test_cfg) = Some sample_pool"
  by (simp add: init_defs Let_def test_cfg_def sample_pool_def numeral_2_eq_2)

lemma sample_run:
  "run sample_ops \<lparr>the_pool = sample_pool, the_driver = fresh_driver, held = []\<rparr>
     = Some sample_end"
  by (simp add: sample_ops_def sample_pool_def sample_end_def pool_defs)

subsection \<open>The invariant of a run\<close>

lemma in_flight_count_snoc:
  "in_flight_count (cs @ [c]) h =
     in_flight_count cs h + (if hpResp c = h \<and> conn c \<noteq> None then 1 else 0)"
  by (simp add: in_flight_count_def)

lemma in_flight_count_remove:
  assumes "i < length cs"
  shows "in_flight_count (take i cs @ drop (Suc i) cs) h
           + (if hpResp (cs ! i) = h \<and> conn (cs ! i) \<noteq> None then 1 else 0)
         = in_flight_count cs h"
proof -
  have "cs = take i cs @ cs ! i # drop (Suc i) cs"
    using assms by (simp add: id_take_nth_drop)
  then have "in_flight_count cs h = in_flight_count (take i cs @ cs ! i # drop (Suc i) cs) h"
    by simp
  then show ?thesis by (simp add: in_flight_count_def)
qed

lemma checkout_other_host:
  assumes "checkout p d h0 ok = Returns (p', d') c" and "h \<noteq> h0"
  shows "hostConnsEstablished p' h = hostConnsEstablished p h
       \<and> hostConnsUnestablished p' h = hostConnsUnestablished p h"
  using assms
  by (auto simp: checkout_def dequeue_def connect_def Let_def
      split: option.splits if_splits prod.splits)

lemma checkout_hpResp:
  assumes "checkout p d h0 ok = Returns (p', d') c"
  shows "hpResp c = h0"
  using assms
  by (auto simp: checkout_def dequeue_def connect_def Let_def
      split: option.splits if_splits prod.splits)

lemma checkout_same_host:
  assumes "host_inv hs n s h0"
  shows "\<exists>p' d' c. checkout (the_pool s) (the_driver s) h0 ok = Returns (p', d') c
          \<and> host_inv hs n \<lparr>the_pool = p', the_driver = d', held = held s @ [c]\<rparr> h0"
  using assms
  apply (auto simp: host_inv_def in_flight_count_snoc checkout_def dequeue_def recv_def send_def connect_def Let_def
      split: option.splits if_splits prod.splits list.splits)
  done


lemma host_inv_frame:
  assumes "host_inv hs n s h"
    and "hostConnsEstablished (the_pool s') h = hostConnsEstablished (the_pool s) h"
    and "hostConnsUnestablished (the_pool s') h = hostConnsUnestablished (the_pool s) h"
    and "in_flight_count (held s') h = in_flight_count (held s) h"
  shows "host_inv hs n s' h"
  using assms by (auto simp: host_inv_def split: option.splits)

lemma step_Checkout_inv:
  assumes inv: "\<forall>h. host_inv hs n s h" and st: "step (Checkout h0 ok) s = Some s'"
  shows "host_inv hs n s' h"
proof -
  from inv have "host_inv hs n s h0" by simp
  from checkout_same_host [OF this, of ok] obtain p' d' c where
    co: "checkout (the_pool s) (the_driver s) h0 ok = Returns (p', d') c"
    and h0: "host_inv hs n \<lparr>the_pool = p', the_driver = d', held = held s @ [c]\<rparr> h0"
    by blast
  from st co have s': "s' = \<lparr>the_pool = p', the_driver = d', held = held s @ [c]\<rparr>"
    by simp
  show ?thesis
  proof (cases "h = h0")
    case True
    with h0 s' show ?thesis by simp
  next
    case False
    have "hpResp c = h0" using co by (rule checkout_hpResp)
    with False have cnt: "in_flight_count (held s') h = in_flight_count (held s) h"
      by (auto simp: s' in_flight_count_snoc)
    from checkout_other_host [OF co False]
    have est: "hostConnsEstablished (the_pool s') h = hostConnsEstablished (the_pool s) h"
      and unest: "hostConnsUnestablished (the_pool s') h = hostConnsUnestablished (the_pool s) h"
      by (simp_all add: s')
    from inv have "host_inv hs n s h" by simp
    then show ?thesis using est unest cnt by (rule host_inv_frame)
  qed
qed

lemma in_flight_count_pos:
  assumes "i < length cs" and "conn (cs ! i) \<noteq> None"
  shows "0 < in_flight_count cs (hpResp (cs ! i))"
  using in_flight_count_remove [OF assms(1), of "hpResp (cs ! i)"] assms(2) by simp

lemma checkin_nil:
  assumes "conn c = None"
  shows "checkin p c err = Returns (Mark c err p) ()"
  using assms by (simp add: checkin_def)

lemma checkin_held:
  assumes inv: "host_inv hs n s (hpResp (held s ! i))" and i: "i < length (held s)"
    and c: "conn (held s ! i) = Some k"
  shows "\<exists>ce. hostConnsEstablished (the_pool s) (hpResp (held s ! i)) = Some ce
           \<and> length (buf ce) < cap ce
           \<and> checkin (the_pool s) (held s ! i) err =
               Returns ((Mark (held s ! i) err (the_pool s))
                 \<lparr>hostConnsEstablished :=
                    (hostConnsEstablished (the_pool s))
                      (hpResp (held s ! i) \<mapsto> ce\<lparr>buf := buf ce @ [Some k]\<rparr>)\<rparr>) ()"
proof -
  from in_flight_count_pos [OF i] c
  have pos: "0 < in_flight_count (held s) (hpResp (held s ! i))" by simp
  with inv obtain ce cu where
    ce: "hostConnsEstablished (the_pool s) (hpResp (held s ! i)) = Some ce"
    and "hostConnsUnestablished (the_pool s) (hpResp (held s ! i)) = Some cu"
    and "cap ce = n"
    and "length (buf ce) + length (buf cu) + in_flight_count (held s) (hpResp (held s ! i)) = n"
    by (auto simp: host_inv_def split: option.splits)
  with pos have "length (buf ce) < cap ce" by simp
  with ce c show ?thesis
    by (simp add: checkin_def send_def Mark_def)
qed

lemma step_Checkin_inv:
  assumes inv: "\<forall>h. host_inv hs n s h" and st: "step (Checkin i err) s = Some s'"
  shows "host_inv hs n s' h"
proof -
  from st have i: "i < length (held s)" by (simp split: if_splits)
  let ?c = "held s ! i"
  from inv have hi: "host_inv hs n s h" by simp
  show ?thesis
  proof (cases "conn ?c")
    case None
    with st i have s': "s' = s\<lparr>the_pool := Mark ?c err (the_pool s),
        held := take i (held s) @ drop (Suc i) (held s)\<rparr>"
      by (simp add: checkin_nil)
    from in_flight_count_remove [OF i, of h] None
    have "in_flight_count (held s') h = in_flight_count (held s) h" by (simp add: s')
    with hi show ?thesis by (auto simp: host_inv_def s' Mark_def split: option.splits)
  next
    case (Some k)
    from inv have "host_inv hs n s (hpResp ?c)" by simp
    from checkin_held [OF this i Some, of err] obtain ce where
      ce: "hostConnsEstablished (the_pool s) (hpResp ?c) = Some ce"
      and room: "length (buf ce) < cap ce"
      and ci: "checkin (the_pool s) ?c err =
               Returns ((Mark ?c err (the_pool s))
                 \<lparr>hostConnsEstablished :=
                    (hostConnsEstablished (the_pool s))
                      (hpResp ?c \<mapsto> ce\<lparr>buf := buf ce @ [Some k]\<rparr>)\<rparr>) ()"
      by blast
    from st i ci have s': "s' = s\<lparr>the_pool := (Mark ?c err (the_pool s))
                 \<lparr>hostConnsEstablished :=
                    (hostConnsEstablished (the_pool s))
                      (hpResp ?c \<mapsto> ce\<lparr>buf := buf ce @ [Some k]\<rparr>)\<rparr>,
        held := take i (held s) @ drop (Suc i) (held s)\<rparr>"
      by simp
    from in_flight_count_remove [OF i, of h] Some
    have cnt: "in_flight_count (held s') h + (if hpResp ?c = h then 1 else 0)
                 = in_flight_count (held s) h"
      by (simp add: s')
    show ?thesis
    proof (cases "hpResp ?c = h")
      case True
      with hi ce cnt show ?thesis
        by (auto simp: host_inv_def s' Mark_def split: option.splits)
    next
      case False
      with hi cnt show ?thesis
        by (auto simp: host_inv_def s' Mark_def split: option.splits)
    qed
  qed
qed

lemma step_inv:
  assumes "\<forall>h. host_inv hs n s h" and "step x s = Some s'"
  shows "\<forall>h. host_inv hs n s' h"
proof (cases x)
  case (Checkout h0 ok)
  with assms show ?thesis by (blast intro: step_Checkout_inv)
next
  case (Checkin i err)
  with assms show ?thesis by (blast intro: step_Checkin_inv)
next
  case (Closes c)
  with assms(2) have s': "s' = s\<lparr>the_driver := conn_Close c (the_driver s)\<rparr>" by simp
  show ?thesis
  proof
    fix h
    from assms(1) have "host_inv hs n s h" by simp
    then show "host_inv hs n s' h" by (rule host_inv_frame) (simp_all add: s')
  qed
qed

lemma run_inv:
  assumes "run xs s = Some s'" and "\<forall>h. host_inv hs n s h"
  shows "\<forall>h. host_inv hs n s' h"
  using assms
proof (induction xs arbitrary: s)
  case Nil
  then show ?case by simp
next
  case (Cons x xs)
  from Cons.prems(1) obtain s1 where s1: "step x s = Some s1" and r: "run xs s1 = Some s'"
    by (auto split: option.splits)
  from step_inv [OF Cons.prems(2) s1] have "\<forall>h. host_inv hs n s1 h" .
  with Cons.IH [OF r] show ?case by simp
qed

lemma fold_upd_const:
  "fold (\<lambda>h m. m(h \<mapsto> v)) hs m0 h = (if h \<in> set hs then Some v else m0 h)"
  by (induction hs arbitrary: m0) auto

lemma init_inv:
  assumes "gocqlConnectionPool_init (new_pool c) = Some p0"
  shows "host_inv (hosts c) (nat (NumConns c)) \<lparr>the_pool = p0, the_driver = d0, held = []\<rparr> h"
  using assms
  by (auto simp: gocqlConnectionPool_init_def new_pool_def host_inv_def Let_def fold_upd_const
      make_chan_def fill_unestablished_def in_flight_count_def split: if_splits)

lemma host_inv_slots:
  assumes "host_inv hs n s h"
  shows "slots s h \<le> n"
  using assms
  by (auto simp: host_inv_def slots_def established_count_def unestablished_count_def
      split: option.splits)

lemma checkout_dom:
  assumes "checkout p d h0 ok = Returns (p', d') c"
  shows "(hostConnsEstablished p' h = None \<longleftrightarrow> hostConnsEstablished p h = None)
       \<and> (hostConnsUnestablished p' h = None \<longleftrightarrow> hostConnsUnestablished p h = None)"
  using assms
  by (auto simp: checkout_def dequeue_def recv_def send_def connect_def Let_def
      split: option.splits if_splits prod.splits list.splits)

lemma checkout_counts:
  assumes "host_inv hs n s h0"
  shows "\<exists>p' d' c. checkout (the_pool s) (the_driver s) h0 ok = Returns (p', d') c
          \<and> established_count p' h0 + unestablished_count p' h0 + (if conn c = None then 0 else 1)
              = established_count (the_pool s) h0 + unestablished_count (the_pool s) h0"
proof -
  from checkout_same_host [OF assms, of ok] obtain p' d' c where
    co: "checkout (the_pool s) (the_driver s) h0 ok = Returns (p', d') c"
    and h0: "host_inv hs n \<lparr>the_pool = p', the_driver = d', held = held s @ [c]\<rparr> h0"
    by blast
  have hp: "hpResp c = h0" using co by (rule checkout_hpResp)
  from checkout_dom [OF co, of h0] assms h0 hp
  have "established_count p' h0 + unestablished_count p' h0 + (if conn c = None then 0 else 1)
              = established_count (the_pool s) h0 + unestablished_count (the_pool s) h0"
    by (auto simp: host_inv_def established_count_def unestablished_count_def in_flight_count_snoc
        split: option.splits if_splits)
  with co show ?thesis by blast
qed

subsection \<open>Slot conservation\<close>

text \<open>
  C1. In every state a pool reaches from \<^verbatim>\<open>init\<close> by checkouts, checkins of handles
  held and closings of connections, the established queue, the unestablished queue and
  the handles held with a connection of a host never add up to more than
  \<^verbatim>\<open>NumConns\<close> (for a configured host, to exactly \<^verbatim>\<open>NumConns\<close>). In such a state a
  checkout returns, and takes one entry out of the two queues of its host exactly when
  it returns a connection (a token taken for a dial that fails is back in the
  unestablished queue); a checkin of a handle held with a connection returns, adds
  one entry to the established queue and none to the unestablished queue.
\<close>

theorem slot_conservation:
  assumes "gocqlConnectionPool_init (new_pool c) = Some p0"
    and "run xs \<lparr>the_pool = p0, the_driver = d0, held = []\<rparr> = Some s"
  shows "slots s h \<le> nat (NumConns c)
       \<and> (h \<in> set (hosts c) \<longrightarrow> slots s h = nat (NumConns c))
       \<and> (\<exists>p d r. checkout (the_pool s) (the_driver s) h ok = Returns (p, d) r
            \<and> established_count p h + unestablished_count p h + (if conn r = None then 0 else 1)
                = established_count (the_pool s) h + unestablished_count (the_pool s) h)
       \<and> (i < length (held s) \<and> conn (held s ! i) \<noteq> None \<longrightarrow>
            (\<exists>p. checkin (the_pool s) (held s ! i) err = Returns p ()
              \<and> established_count p (hpResp (held s ! i))
                  = Suc (established_count (the_pool s) (hpResp (held s ! i)))
              \<and> unestablished_count p (hpResp (held s ! i))
                  = unestablished_count (the_pool s) (hpResp (held s ! i))))"
proof -
  let ?n = "nat (NumConns c)"
  have "\<forall>h. host_inv (hosts c) ?n \<lparr>the_pool = p0, the_driver = d0, held = []\<rparr> h"
    using init_inv [OF assms(1)] by simp
  with assms(2) have inv: "\<forall>h. host_inv (hosts c) ?n s h" by (rule run_inv)
  then have hi: "host_inv (hosts c) ?n s h" by simp
  have le: "slots s h \<le> ?n" using hi by (rule host_inv_slots)
  have eq: "h \<in> set (hosts c) \<longrightarrow> slots s h = ?n"
  proof
    assume h: "h \<in> set (hosts c)"
    with hi show "slots s h = ?n"
      by (auto simp: host_inv_def slots_def established_count_def unestablished_count_def
          split: option.splits)
  qed
  have co: "\<exists>p d r. checkout (the_pool s) (the_driver s) h ok = Returns (p, d) r
            \<and> established_count p h + unestablished_count p h + (if conn r = None then 0 else 1)
                = established_count (the_pool s) h + unestablished_count (the_pool s) h"
    using hi by (rule checkout_counts)
  have ci: "i < length (held s) \<and> conn (held s ! i) \<noteq> None \<longrightarrow>
            (\<exists>p. checkin (the_pool s) (held s ! i) err = Returns p ()
              \<and> established_count p (hpResp (held s ! i))
                  = Suc (established_count (the_pool s) (hpResp (held s ! i)))
              \<and> unestablished_count p (hpResp (held s ! i))
                  = unestablished_count (the_pool s) (hpResp (held s ! i)))"
  proof
    assume a: "i < length (held s) \<and> conn (held s ! i) \<noteq> None"
    then obtain k where k: "conn (held s ! i) = Some k" by auto
    from inv have "host_inv (hosts c) ?n s (hpResp (held s ! i))" by simp
    from checkin_held [OF this _ k, of err] a obtain ce where
      "hostConnsEstablished (the_pool s) (hpResp (held s ! i)) = Some ce"
      "checkin (the_pool s) (held s ! i) err =
               Returns ((Mark (held s ! i) err (the_pool s))
                 \<lparr>hostConnsEstablished :=
                    (hostConnsEstablished (the_pool s))
                      (hpResp (held s ! i) \<mapsto> ce\<lparr>buf := buf ce @ [Some k]\<rparr>)\<rparr>) ()"
      by blast
    then show "\<exists>p. checkin (the_pool s) (held s ! i) err = Returns p ()
              \<and> established_count p (hpResp (held s ! i))
                  = Suc (established_count (the_pool s) (hpResp (held s ! i)))
              \<and> unestablished_count p (hpResp (held s ! i))
                  = unestablished_count (the_pool s) (hpResp (held s ! i))"
      by (simp add: established_count_def unestablished_count_def Mark_def)
  qed
  from le eq co ci show ?thesis by blast
qed

theorem slot_conservation_witness:
  "gocqlConnectionPool_init (new_pool test_cfg) = Some sample_pool
   \<and> run sample_ops \<lparr>the_pool = sample_pool, the_driver = fresh_driver, held = []\<rparr>
       = Some sample_end
   \<and> slots sample_end ''host1'' \<le> 2
   \<and> slots sample_end ''host1'' = 2
   \<and> (\<exists>p d r. checkout (the_pool sample_end) (the_driver sample_end) ''host1'' True
                  = Returns (p, d) r
          \<and> established_count p ''host1'' + unestablished_count p ''host1''
               + (if conn r = None then 0 else 1)
             = established_count (the_pool sample_end) ''host1''
               + unestablished_count (the_pool sample_end) ''host1'')
   \<and> (\<exists>p. checkin (the_pool sample_end) (held sample_end ! 1) None = Returns p ()
          \<and> established_count p ''host1''
             = Suc (established_count (the_pool sample_end) ''host1'')
          \<and> unestablished_count p ''host1''
             = unestablished_count (the_pool sample_end) ''host1'')"
proof -
  have c: "''host1'' \<in> set (hosts test_cfg)" "nat (NumConns test_cfg) = 2"
    by (simp_all add: test_cfg_def)
  have h: "1 < length (held sample_end) \<and> conn (held sample_end ! 1) \<noteq> None"
    "hpResp (held sample_end ! 1) = ''host1''"
    by (simp_all add: sample_end_def)
  from slot_conservation [OF sample_init sample_run, of "''host1''" True 1 None] c h
  show ?thesis by (simp add: sample_init sample_run)
qed

subsection \<open>Exhaustion\<close>

lemma sample_exhaust:
  "run [Checkout ''host1'' True, Checkout ''host1'' True]
       \<lparr>the_pool = sample_pool, the_driver = fresh_driver, held = []\<rparr>
     = Some \<lparr>the_pool = exhausted_pool, the_driver = exhausted_driver,
             held = [\<lparr>conn = Some 0, hpResp = ''host1''\<rparr>, \<lparr>conn = Some 1, hpResp = ''host1''\<rparr>]\<rparr>"
  by (simp add: sample_pool_def exhausted_pool_def exhausted_driver_def pool_defs)

text \<open>
  C2. A checkout that finds neither channel of the picked host ready, the established
  one at either select and the unestablished one at the second, is the checkout whose
  timer fires: it returns, leaving the pool and the driver as they were, a handle with
  no connection and the host picked. The five seconds themselves are not part of the
  model; that nothing arrives within them is that neither channel is ready.
\<close>

theorem checkout_exhausted:
  assumes "recv (hostConnsEstablished p h) = None"
    and "recv (hostConnsUnestablished p h) = None"
  shows "checkout p d h ok = Returns (p, d) \<lparr>conn = None, hpResp = h\<rparr>"
  using assms by (simp add: checkout_def dequeue_def)

theorem checkout_exhausted_witness:
  "recv (hostConnsEstablished exhausted_pool ''host1'') = None
   \<and> recv (hostConnsUnestablished exhausted_pool ''host1'') = None
   \<and> checkout exhausted_pool exhausted_driver ''host1'' True
       = Returns (exhausted_pool, exhausted_driver) \<lparr>conn = None, hpResp = ''host1''\<rparr>"
proof -
  have e: "recv (hostConnsEstablished exhausted_pool ''host1'') = None"
    by (simp add: exhausted_pool_def recv_def)
  have u: "recv (hostConnsUnestablished exhausted_pool ''host1'') = None"
    by (simp add: exhausted_pool_def recv_def)
  from e u checkout_exhausted [OF e u, of exhausted_driver True] show ?thesis by simp
qed

subsection \<open>A dial that fails\<close>

text \<open>
  C4. When the established channel of the picked host is not ready, the value received
  from the unestablished channel is the nil token and the dial fails, checkout sends
  the token back on the unestablished channel and returns a handle with no connection:
  it does not panic, and it has called \<^verbatim>\<open>gocql.Connect\<close> once. (A channel never holds
  more than its capacity, which is the last hypothesis.)
\<close>

theorem checkout_dial_failure:
  assumes "recv (hostConnsEstablished p h) = None"
    and "hostConnsUnestablished p h = Some ch"
    and "buf ch = None # ts"
    and "length (buf ch) \<le> cap ch"
  shows "checkout p d h False =
           Returns
             (p\<lparr>hostConnsUnestablished := (hostConnsUnestablished p)(h \<mapsto> ch\<lparr>buf := ts @ [None]\<rparr>)\<rparr>,
              d\<lparr>attempts := Suc (attempts d)\<rparr>)
             \<lparr>conn = None, hpResp = h\<rparr>"
  using assms by (simp add: checkout_def dequeue_def recv_def send_def connect_def)

theorem checkout_dial_failure_witness:
  "recv (hostConnsEstablished sample_pool ''host1'') = None
   \<and> hostConnsUnestablished sample_pool ''host1'' = Some \<lparr>cap = 2, buf = [None, None]\<rparr>
   \<and> checkout sample_pool fresh_driver ''host1'' False =
         Returns (sample_pool, \<lparr>dialed = 0, attempts = 1, closedConns = {}\<rparr>)
           \<lparr>conn = None, hpResp = ''host1''\<rparr>"
proof -
  have e: "recv (hostConnsEstablished sample_pool ''host1'') = None"
    by (simp add: sample_pool_def recv_def)
  have u: "hostConnsUnestablished sample_pool ''host1'' = Some \<lparr>cap = 2, buf = [None, None]\<rparr>"
    by (simp add: sample_pool_def)
  have b: "buf \<lparr>cap = 2, buf = [None, None :: conn option]\<rparr> = None # [None]" by simp
  have l: "length (buf \<lparr>cap = 2, buf = [None, None :: conn option]\<rparr>)
             \<le> cap \<lparr>cap = 2, buf = [None, None :: conn option]\<rparr>"
    by simp
  from checkout_dial_failure [OF e u b l, of fresh_driver] e u
  show ?thesis by (simp add: sample_pool_def fresh_driver_def)
qed

subsection \<open>Checkin\<close>

text \<open>
  C5. Whatever the handle, checkin marks the outcome at the host pool, also when it
  then blocks, and touches neither the unestablished channels nor the list of
  connections. With a nil connection it returns having done nothing else. With a
  connection, and room in the established channel of the handle's host, it returns
  with that connection appended to that channel. When it returns, the established
  queue of the handle's host has grown by one entry exactly when the handle carries a
  connection, and no other established queue has changed.
\<close>

theorem checkin_contract:
  "(\<exists>p'. state_of (checkin p c err) = Some p'
       \<and> hp p' = hp p @ [(hpResp c, err)]
       \<and> hostConnsUnestablished p' = hostConnsUnestablished p
       \<and> activeConns p' = activeConns p)
   \<and> (conn c = None \<longrightarrow>
        checkin p c err = Returns (p\<lparr>hp := hp p @ [(hpResp c, err)]\<rparr>) ())
   \<and> (conn c = Some k \<and> hostConnsEstablished p (hpResp c) = Some ce
        \<and> length (buf ce) < cap ce \<longrightarrow>
        checkin p c err =
          Returns (p\<lparr>hp := hp p @ [(hpResp c, err)],
                    hostConnsEstablished :=
                      (hostConnsEstablished p)(hpResp c \<mapsto> ce\<lparr>buf := buf ce @ [Some k]\<rparr>)\<rparr>) ())
   \<and> (checkin p c err = Returns p' () \<longrightarrow>
        established_count p' (hpResp c)
          = established_count p (hpResp c) + (if conn c = None then 0 else 1)
        \<and> (\<forall>h. h \<noteq> hpResp c \<longrightarrow> hostConnsEstablished p' h = hostConnsEstablished p h))"
  by (auto simp: checkin_def Mark_def send_def established_count_def
      split: option.splits if_splits)

theorem checkin_contract_witness:
  "checkin exhausted_pool \<lparr>conn = None, hpResp = ''host1''\<rparr> (Some ''timeout'')
     = Returns (exhausted_pool\<lparr>hp := [(''host1'', Some ''timeout'')]\<rparr>) ()
   \<and> checkin exhausted_pool \<lparr>conn = Some 1, hpResp = ''host1''\<rparr> None
     = Returns (exhausted_pool\<lparr>hp := [(''host1'', None)],
         hostConnsEstablished := [''host1'' \<mapsto> \<lparr>cap = 2, buf = [Some 1]\<rparr>]\<rparr>) ()
   \<and> established_count (exhausted_pool\<lparr>hp := [(''host1'', None)],
         hostConnsEstablished := [''host1'' \<mapsto> \<lparr>cap = 2, buf = [Some 1]\<rparr>]\<rparr>) ''host1''
       = established_count exhausted_pool ''host1'' + 1"
proof -
  have e: "hostConnsEstablished exhausted_pool ''host1'' = Some \<lparr>cap = 2, buf = []\<rparr>"
    "hp exhausted_pool = []"
    by (simp_all add: exhausted_pool_def)
  have n: "checkin exhausted_pool \<lparr>conn = None, hpResp = ''host1''\<rparr> (Some ''timeout'')
     = Returns (exhausted_pool\<lparr>hp := [(''host1'', Some ''timeout'')]\<rparr>) ()"
    using checkin_contract [of exhausted_pool "\<lparr>conn = None, hpResp = ''host1''\<rparr>"
        "Some ''timeout''" 0 "\<lparr>cap = 2, buf = []\<rparr>" exhausted_pool] e
    by simp
  have s: "checkin exhausted_pool \<lparr>conn = Some 1, hpResp = ''host1''\<rparr> None
     = Returns (exhausted_pool\<lparr>hp := [(''host1'', None)],
         hostConnsEstablished := [''host1'' \<mapsto> \<lparr>cap = 2, buf = [Some 1]\<rparr>]\<rparr>) ()"
    using checkin_contract [of exhausted_pool "\<lparr>conn = Some 1, hpResp = ''host1''\<rparr>"
        None 1 "\<lparr>cap = 2, buf = []\<rparr>" exhausted_pool] e
    by (simp add: exhausted_pool_def)
  from checkin_contract [of exhausted_pool "\<lparr>conn = Some 1, hpResp = ''host1''\<rparr>"
        None 1 "\<lparr>cap = 2, buf = []\<rparr>" "exhausted_pool\<lparr>hp := [(''host1'', None)],
         hostConnsEstablished := [''host1'' \<mapsto> \<lparr>cap = 2, buf = [Some 1]\<rparr>]\<rparr>"] s
  have "established_count (exhausted_pool\<lparr>hp := [(''host1'', None)],
         hostConnsEstablished := [''host1'' \<mapsto> \<lparr>cap = 2, buf = [Some 1]\<rparr>]\<rparr>) ''host1''
       = established_count exhausted_pool ''host1'' + 1"
    by simp
  with n s show ?thesis by simp
qed

subsection \<open>Reuse\<close>

text \<open>
  C7. For a pool of one host with two connections per host: the first checkout dials
  (its connection is the one the driver has just made, and \<^verbatim>\<open>Size\<close> is 1); after the
  checkin of that handle with no error, the next checkout returns a handle with the
  same host and the same connection, without dialing. The hypotheses are those of the
  scenario: the dial succeeds, and the connection is not closed in between.
\<close>

theorem reuse_round_trip:
  assumes "hosts c = [h]" and "NumConns c = 2" and "\<not> Closed d (dialed d)"
  shows "\<exists>p0 p1 d1 A p2 p3 d3 B.
           gocqlConnectionPool_init (new_pool c) = Some p0
         \<and> checkout p0 d h True = Returns (p1, d1) A
         \<and> conn A = Some (dialed d) \<and> dialed d1 = Suc (dialed d) \<and> Size p1 = 1
         \<and> checkin p1 A None = Returns p2 ()
         \<and> checkout p2 d1 h ok = Returns (p3, d3) B
         \<and> hpResp B = hpResp A \<and> conn B = conn A \<and> Size p3 = 1 \<and> d3 = d1"
  using assms
  by (simp add: init_defs pool_defs Size_def numeral_2_eq_2)

theorem reuse_round_trip_witness:
  "hosts test_cfg = [''host1''] \<and> NumConns test_cfg = 2
   \<and> \<not> Closed fresh_driver (dialed fresh_driver)
   \<and> (\<exists>p0 p1 d1 A p2 p3 d3 B.
           gocqlConnectionPool_init (new_pool test_cfg) = Some p0
         \<and> checkout p0 fresh_driver ''host1'' True = Returns (p1, d1) A
         \<and> conn A = Some 0 \<and> dialed d1 = 1 \<and> Size p1 = 1
         \<and> checkin p1 A None = Returns p2 ()
         \<and> checkout p2 d1 ''host1'' True = Returns (p3, d3) B
         \<and> hpResp B = hpResp A \<and> conn B = conn A \<and> Size p3 = 1 \<and> d3 = d1)"
proof -
  have a: "hosts test_cfg = [''host1'']" "NumConns test_cfg = 2"
    by (simp_all add: test_cfg_def)
  have b: "\<not> Closed fresh_driver (dialed fresh_driver)"
    by (simp add: Closed_def fresh_driver_def)
  have z: "dialed fresh_driver = 0" by (simp add: fresh_driver_def)
  from reuse_round_trip [OF a b, of True] a b z show ?thesis by simp
qed

subsection \<open>A dead connection\<close>

lemma checkout_returned_conn:
  assumes "checkout p d h ok = Returns s r" and "conn r = Some k"
  shows "k = dialed d \<or> \<not> Closed d k"
  using assms
  by (auto simp: checkout_def dequeue_def connect_def Let_def
      split: option.splits if_splits prod.splits)

text \<open>
  C9. When the head of the established queue of the picked host is a connection that
  reports closed (one the driver has made: its number is below \<open>dialed\<close>), checkout
  dials: if the dial succeeds it returns the new connection,
  which is another one, and tracks it; if the dial fails (and the unestablished channel
  has room) it leaves a nil token there and returns a handle with no connection. In
  no case does the handle it returns carry the closed connection.
\<close>

theorem checkout_dead_connection:
  assumes "hostConnsEstablished p h = Some ce" and "buf ce = Some c # cs"
    and "Closed d c" and "c < dialed d"
  shows "checkout p d h True =
           Returns
             (p\<lparr>hostConnsEstablished := (hostConnsEstablished p)(h \<mapsto> ce\<lparr>buf := cs\<rparr>),
                activeConns := activeConns p @ [dialed d]\<rparr>,
              d\<lparr>dialed := Suc (dialed d), attempts := Suc (attempts d)\<rparr>)
             \<lparr>conn = Some (dialed d), hpResp = h\<rparr>
       \<and> dialed d \<noteq> c
       \<and> (hostConnsUnestablished p h = Some cu \<and> length (buf cu) < cap cu \<longrightarrow>
            checkout p d h False =
              Returns
                (p\<lparr>hostConnsEstablished := (hostConnsEstablished p)(h \<mapsto> ce\<lparr>buf := cs\<rparr>),
                   hostConnsUnestablished :=
                     (hostConnsUnestablished p)(h \<mapsto> cu\<lparr>buf := buf cu @ [None]\<rparr>)\<rparr>,
                 d\<lparr>attempts := Suc (attempts d)\<rparr>)
                \<lparr>conn = None, hpResp = h\<rparr>)
       \<and> (checkout p d h ok = Returns s r \<longrightarrow> conn r \<noteq> Some c)"
proof -
  have a: "checkout p d h True =
           Returns
             (p\<lparr>hostConnsEstablished := (hostConnsEstablished p)(h \<mapsto> ce\<lparr>buf := cs\<rparr>),
                activeConns := activeConns p @ [dialed d]\<rparr>,
              d\<lparr>dialed := Suc (dialed d), attempts := Suc (attempts d)\<rparr>)
             \<lparr>conn = Some (dialed d), hpResp = h\<rparr>"
    using assms by (simp add: checkout_def dequeue_def recv_def connect_def Let_def)
  have b: "dialed d \<noteq> c" using assms(4) by simp
  have f: "hostConnsUnestablished p h = Some cu \<and> length (buf cu) < cap cu \<longrightarrow>
            checkout p d h False =
              Returns
                (p\<lparr>hostConnsEstablished := (hostConnsEstablished p)(h \<mapsto> ce\<lparr>buf := cs\<rparr>),
                   hostConnsUnestablished :=
                     (hostConnsUnestablished p)(h \<mapsto> cu\<lparr>buf := buf cu @ [None]\<rparr>)\<rparr>,
                 d\<lparr>attempts := Suc (attempts d)\<rparr>)
                \<lparr>conn = None, hpResp = h\<rparr>"
    using assms by (simp add: checkout_def dequeue_def recv_def send_def connect_def Let_def)
  have n: "checkout p d h ok = Returns s r \<longrightarrow> conn r \<noteq> Some c"
    using checkout_returned_conn [of p d h ok s r c] assms(3) b by auto
  from a b f n show ?thesis by blast
qed

theorem checkout_dead_connection_witness:
  "hostConnsEstablished
       (exhausted_pool\<lparr>hostConnsEstablished := [''host1'' \<mapsto> \<lparr>cap = 2, buf = [Some 0]\<rparr>]\<rparr>)
       ''host1'' = Some \<lparr>cap = 2, buf = [Some 0]\<rparr>
   \<and> Closed (exhausted_driver\<lparr>closedConns := {0}\<rparr>) 0
   \<and> 0 < dialed (exhausted_driver\<lparr>closedConns := {0}\<rparr>)
   \<and> checkout
         (exhausted_pool\<lparr>hostConnsEstablished := [''host1'' \<mapsto> \<lparr>cap = 2, buf = [Some 0]\<rparr>]\<rparr>)
         (exhausted_driver\<lparr>closedConns := {0}\<rparr>) ''host1'' True
       = Returns
           (exhausted_pool\<lparr>activeConns := [0, 1, 2]\<rparr>,
            \<lparr>dialed = 3, attempts = 3, closedConns = {0}\<rparr>)
           \<lparr>conn = Some 2, hpResp = ''host1''\<rparr>
   \<and> checkout
         (exhausted_pool\<lparr>hostConnsEstablished := [''host1'' \<mapsto> \<lparr>cap = 2, buf = [Some 0]\<rparr>]\<rparr>)
         (exhausted_driver\<lparr>closedConns := {0}\<rparr>) ''host1'' False
       = Returns
           (exhausted_pool\<lparr>hostConnsUnestablished := [''host1'' \<mapsto> \<lparr>cap = 2, buf = [None]\<rparr>]\<rparr>,
            \<lparr>dialed = 2, attempts = 3, closedConns = {0}\<rparr>)
           \<lparr>conn = None, hpResp = ''host1''\<rparr>"
proof -
  let ?p = "exhausted_pool\<lparr>hostConnsEstablished := [''host1'' \<mapsto> \<lparr>cap = 2, buf = [Some 0]\<rparr>]\<rparr>"
  let ?d = "exhausted_driver\<lparr>closedConns := {0}\<rparr>"
  have e: "hostConnsEstablished ?p ''host1'' = Some \<lparr>cap = 2, buf = [Some 0]\<rparr>" by simp
  have b: "buf \<lparr>cap = 2, buf = [Some (0 :: conn)]\<rparr> = Some 0 # []" by simp
  have c: "Closed ?d 0" by (simp add: Closed_def)
  have l: "0 < dialed ?d" by (simp add: exhausted_driver_def)
  have u: "hostConnsUnestablished ?p ''host1'' = Some \<lparr>cap = 2, buf = []\<rparr>"
    by (simp add: exhausted_pool_def)
  from checkout_dead_connection [OF e b c l, of "\<lparr>cap = 2, buf = []\<rparr>"] e c l u
  show ?thesis by (simp add: exhausted_pool_def exhausted_driver_def)
qed

section \<open>Properties of the executors\<close>

subsection \<open>A new pool serves a statement\<close>








subsection \<open>A first call that cannot load the configuration\<close>



subsection \<open>A notification that changes nothing\<close>

text \<open>
  C6. When the configuration loaded on a notification has the hash the executor
  stores, the turn of the watcher returns with the executor as it was (the same pool
  pointer, the same hash) and a world in which no pool object, no connection and no
  counter has changed: only the debug line is logged. This holds for the loop of the
  executor that holds a pool and for \<^verbatim>\<open>reloadSession\<close> of the one that holds a session.
\<close>

theorem noop_reload:
  "(getKsConfig (ks e) = Inr c \<and> hash c = lastHash e \<longrightarrow>
      (\<exists>w'. watchConfig_body hash getKsConfig e w = Returns (e, w') ()
         \<and> pools w' = pools w \<and> drv w' = drv w \<and> nextPool w' = nextPool w
         \<and> watchers w' = watchers w))
   \<and> (getKsConfig (ks es) = Inr c \<and> hash c = lastHash es \<longrightarrow>
      (\<exists>w'. reloadSession hash getKsConfig CreateSession es w retryCh = Returns (es, w') retryCh
         \<and> closedSessions w' = closedSessions w \<and> nextSession w' = nextSession w))"
  by (simp add: watchConfig_body_def reloadSession_def emit_def)

theorem noop_reload_witness:
  "sample_hash test_cfg = lastHash sample_executor
   \<and> sample_hash test_cfg = lastHash sample_executor_s
   \<and> watchConfig_body sample_hash (\<lambda>k. Inr test_cfg) sample_executor sample_world
       = Returns (sample_executor,
           sample_world\<lparr>events := [LogDebug ''Config changed but not invalidating connection pool'']\<rparr>) ()
   \<and> reloadSession sample_hash (\<lambda>k. Inr test_cfg) (\<lambda>c. None) sample_executor_s sample_world
         (make_chan 0)
       = Returns (sample_executor_s,
           sample_world\<lparr>events := [LogDebug ''Config changed but not invalidating connection pool'']\<rparr>)
           (make_chan 0)"
proof -
  have h: "sample_hash test_cfg = lastHash sample_executor"
    "sample_hash test_cfg = lastHash sample_executor_s"
    by (simp_all add: sample_hash_def test_cfg_def sample_executor_def sample_executor_s_def)
  from noop_reload [of "\<lambda>k. Inr test_cfg" sample_executor test_cfg sample_hash sample_world
      sample_executor_s "\<lambda>c. None" "make_chan 0"] h
  show ?thesis
    by (auto simp: watchConfig_body_def reloadSession_def emit_def sample_world_def)
qed

subsection \<open>The operation that is not implemented\<close>

text \<open>
  C8. For either executor and any arguments, \<^verbatim>\<open>ExecuteAtomically\<close> returns the error
  "Execute atomically is not implemented yet" and leaves the executor and the world,
  events included, as they were.
\<close>

theorem execute_atomically_unsupported:
  "ExecuteAtomically (e :: gocqlExecutor) w stmt params
     = Returns (e, w) (Some ''Execute atomically is not implemented yet'')
   \<and> ExecuteAtomically (es :: gocqlExecutor_s) w stmt params
     = Returns (es, w) (Some ''Execute atomically is not implemented yet'')"
  by (simp add: ExecuteAtomically_def)

subsection \<open>A new session that cannot be created\<close>

text \<open>
  C3, as the code has it. When \<^verbatim>\<open>reloadSession\<close> finds a changed hash and the new
  session cannot be created, the executor keeps its session pointer and the hash it
  stored, but the session it points to has been closed and the stored configuration is
  the new one; the watcher has logged the error and slept one second. Whether the
  call returns or not, this is the state it leaves.
\<close>

theorem reload_failure_state:
  assumes "getKsConfig (ks e) = Inr c" and "hash c \<noteq> lastHash e"
    and "CreateSession c = Some err"
  shows "\<exists>e' w' rest.
           state_of (reloadSession hash getKsConfig CreateSession e w retryCh) = Some (e', w')
         \<and> session e' = session e \<and> lastHash e' = lastHash e \<and> cfg e' = c
         \<and> closedSessions w' =
             (case session e of None \<Rightarrow> closedSessions w | Some s \<Rightarrow> insert s (closedSessions w))
         \<and> nextSession w' = nextSession w
         \<and> events w' =
             events w
             @ [LogInfo ''Config changed; invalidating connection pool'',
                LogError ''Error creating session, retrying after 1s delay'', Sleep 1]
             @ rest"
  using assms
  by (auto simp: reloadSession_def switchConfig_s_def session_Close_def emit_def Let_def
      split: option.splits)

theorem reload_failure_state_witness:
  "sample_hash changed_cfg \<noteq> lastHash sample_executor_s
   \<and> (\<exists>e' w' rest.
           state_of (reloadSession sample_hash (\<lambda>k. Inr changed_cfg) (\<lambda>c. Some ''no connections'')
             sample_executor_s sample_world (make_chan 0)) = Some (e', w')
         \<and> session e' = Some 0 \<and> lastHash e' = 1 \<and> cfg e' = changed_cfg
         \<and> closedSessions w' = {0}
         \<and> nextSession w' = 1
         \<and> events w' =
             [LogInfo ''Config changed; invalidating connection pool'',
                LogError ''Error creating session, retrying after 1s delay'', Sleep 1]
             @ rest)"
proof -
  have b: "sample_hash changed_cfg \<noteq> lastHash sample_executor_s"
    by (simp add: sample_hash_def changed_cfg_def sample_executor_s_def)
  have d: "session sample_executor_s = Some 0" "lastHash sample_executor_s = 1"
    "closedSessions sample_world = {}" "nextSession sample_world = 1" "events sample_world = []"
    by (simp_all add: sample_executor_s_def sample_world_def)
  from reload_failure_state [where getKsConfig = "\<lambda>k. Inr changed_cfg" and e = sample_executor_s
      and c = changed_cfg and hash = sample_hash and CreateSession = "\<lambda>c. Some ''no connections''"
      and err = "''no connections''" and w = sample_world and retryCh = "make_chan 0"] b d
  show ?thesis by simp
qed

text \<open>
  C3 as stated does not hold: on the sample executor, whose session 0 is open, a
  notification with a changed configuration whose session cannot be created leaves
  session 0 closed and the stored configuration changed, and the call never returns:
  its send on the unbuffered retry channel has no receiver, so the watcher handles
  no later notification either.
\<close>

theorem reload_failure_counterexample:
  "session sample_executor_s = Some 0
   \<and> 0 \<notin> closedSessions sample_world
   \<and> reloadSession sample_hash (\<lambda>k. Inr changed_cfg) (\<lambda>c. Some ''no connections'')
         sample_executor_s sample_world (make_chan 0)
       = Blocks (sample_executor_s\<lparr>cfg := changed_cfg\<rparr>,
           sample_world\<lparr>closedSessions := {0},
             events := [LogInfo ''Config changed; invalidating connection pool'',
                        LogError ''Error creating session, retrying after 1s delay'', Sleep 1]\<rparr>)
   \<and> watchConfig_s sample_hash sample_executor_s sample_world
         [(\<lambda>k. Inr changed_cfg, \<lambda>c. Some ''no connections''), (\<lambda>k. Inr changed_cfg, \<lambda>c. None)]
       = Blocks (sample_executor_s\<lparr>cfg := changed_cfg\<rparr>,
           sample_world\<lparr>closedSessions := {0},
             events := [LogInfo ''Config changed; invalidating connection pool'',
                        LogError ''Error creating session, retrying after 1s delay'', Sleep 1]\<rparr>)"
  by (simp add: reloadSession_def switchConfig_s_def session_Close_def emit_def Let_def
      watchConfig_s_def send_def make_chan_def
      sample_executor_s_def sample_world_def sample_hash_def changed_cfg_def test_cfg_def)

end
